theory Spec2Isabelle
  imports Main "HOL-Library.Word" "HOL-Library.Sublist"
begin

section \<open>Sign-in message checker: fingerprints and risk assessment\<close>

text \<open>
  A shallow embedding of \<^verbatim>\<open>shared/modules/message-checker.js\<close> (the current
  version of the module, with the three-argument \<^verbatim>\<open>checkMessageBeforeSign\<close>).

  \<^item> A JavaScript string is a sequence of UTF-16 code units: \<open>16 word list\<close>.
    The regular expressions of the module carry neither the \<^verbatim>\<open>u\<close> nor the
    \<^verbatim>\<open>i\<close> flag, so they match code unit by code unit.
  \<^item> An element of \<^verbatim>\<open>messageList\<close> is a string, an array of words, or anything
    else; the third case is the branch that throws.
  \<^item> An object used as a dictionary is a plain object: the association list of its own
    properties in the order of \<^verbatim>\<open>for ... in\<close>, with \<^verbatim>\<open>Object.prototype\<close> behind
    it. \<^verbatim>\<open>obj[key]\<close> is \<open>getProperty\<close>: the own value, else the inherited
    property for the names of \<^verbatim>\<open>Object.prototype\<close>, else \<^verbatim>\<open>undefined\<close>.
  \<^item> Every \<^verbatim>\<open>throw\<close> is a value \<open>Inl e\<close> of the result type.
  \<^item> \<^verbatim>\<open>String.prototype.toLowerCase\<close> depends on the Unicode case tables of the
    host and is a parameter of \<open>checkMessageBeforeSign\<close>; \<^verbatim>\<open>Date.now()\<close> is a
    parameter of \<open>createMessageInfo\<close>.
\<close>

subsection \<open>Strings and values\<close>

type_synonym jschar = "16 word"
type_synonym jsstring = "jschar list"
type_synonym fingerprint = "jsstring list"
type_synonym fingerprintTable = "(jsstring \<times> fingerprint) list"

datatype jsvalue = Str jsstring | Arr fingerprint | Other

datatype error = EmptyInput | InvalidMessage | LengthMismatch | TypeError

text \<open>The code units of an ASCII literal of the source.\<close>

definition js :: "string \<Rightarrow> jsstring" where
  "js s = map (\<lambda>c. of_nat (of_char c)) s"

definition nonce :: jsstring where
  "nonce = js ''_nonce_''"

definition addressPlaceholder :: jsstring where
  "addressPlaceholder = js ''_address_''"

subsection \<open>Objects as dictionaries\<close>

text \<open>
  The property names of \<^verbatim>\<open>Object.prototype\<close>. A plain object inherits them; none of
  them is enumerable, so \<^verbatim>\<open>for ... in\<close> does not visit them. The value of each is a
  function, and that of \<^verbatim>\<open>__proto__\<close> is \<^verbatim>\<open>Object.prototype\<close> itself: never
  \<^verbatim>\<open>undefined\<close>, a string or an array, and without a property
  \<^verbatim>\<open>localFingerprints\<close> or \<^verbatim>\<open>some\<close>.
\<close>

definition objectPrototypeKeys :: "jsstring list" where
  "objectPrototypeKeys =
     [js ''constructor'', js ''hasOwnProperty'', js ''isPrototypeOf'',
      js ''propertyIsEnumerable'', js ''toLocaleString'', js ''toString'', js ''valueOf'',
      js ''__proto__'', js ''__defineGetter__'', js ''__defineSetter__'',
      js ''__lookupGetter__'', js ''__lookupSetter__'']"

datatype 'a property = Undefined | Own 'a | Inherited

text \<open>\<^verbatim>\<open>obj[key]\<close>: an own property hides an inherited one.\<close>

definition getProperty :: "(jsstring \<times> 'a) list \<Rightarrow> jsstring \<Rightarrow> 'a property" where
  "getProperty obj key =
     (case map_of obj key of
        Some v \<Rightarrow> Own v
      | None \<Rightarrow> if key \<in> set objectPrototypeKeys then Inherited else Undefined)"

subsection \<open>The regular expressions\<close>

text \<open>\<^verbatim>\<open>[a-fA-F0-9]\<close>\<close>

definition isHexDigit :: "jschar \<Rightarrow> bool" where
  "isHexDigit c \<longleftrightarrow>
     (0x61 \<le> c \<and> c \<le> 0x66) \<or> (0x41 \<le> c \<and> c \<le> 0x46) \<or> (0x30 \<le> c \<and> c \<le> 0x39)"

text \<open>\<^verbatim>\<open>/0x[a-fA-F0-9]{40}/\<close> matched at the start of the string.\<close>

definition matchesAddress :: "jsstring \<Rightarrow> bool" where
  "matchesAddress s \<longleftrightarrow>
     (case s of
        c0 # c1 # rest \<Rightarrow>
          c0 = 0x30 \<and> c1 = 0x78 \<and> 40 \<le> length rest \<and> list_all isHexDigit (take 40 rest)
      | _ \<Rightarrow> False)"

text \<open>
  \<^verbatim>\<open>message.replace(/0x[a-fA-F0-9]{40}/g, '_address_')\<close>: the string is scanned from
  the left; a match is replaced and the scan goes on after its 42 code units, otherwise
  the code unit is kept and the scan goes on at the next one.
\<close>

fun replaceAddress :: "jsstring \<Rightarrow> jsstring" where
  "replaceAddress [] = []"
| "replaceAddress (c # cs) =
     (if matchesAddress (c # cs) then addressPlaceholder @ replaceAddress (drop 41 cs)
      else c # replaceAddress cs)"

text \<open>
  \<^verbatim>\<open>\s\<close>: the WhiteSpace and LineTerminator code points of ECMAScript, all of them
  single code units.
\<close>

definition isWhiteSpace :: "jschar \<Rightarrow> bool" where
  "isWhiteSpace c \<longleftrightarrow>
     (0x09 \<le> c \<and> c \<le> 0x0D) \<or> c = 0x20 \<or> c = 0xA0 \<or> c = 0x1680 \<or>
     (0x2000 \<le> c \<and> c \<le> 0x200A) \<or> c = 0x2028 \<or> c = 0x2029 \<or> c = 0x202F \<or>
     c = 0x205F \<or> c = 0x3000 \<or> c = 0xFEFF"

text \<open>
  \<^verbatim>\<open>message.split(/(\s+)/)\<close>. The first argument of \<open>splitLoop\<close> is the piece read
  since the end of the last separator, the second is the rest of the string. At a white
  space the piece is pushed, then the captured run of white space (the longest one, the
  quantifier being greedy), and the scan goes on after the run. At the end of the string
  the last piece is pushed. The empty string gives the array of the empty string. (The
  limit of \<open>2^32 - 1\<close> elements is beyond the length of any string and is left out.)
\<close>

function splitLoop :: "jsstring \<Rightarrow> jsstring \<Rightarrow> fingerprint" where
  "splitLoop piece [] = [piece]"
| "splitLoop piece (c # cs) =
     (if isWhiteSpace c
      then piece # takeWhile isWhiteSpace (c # cs) # splitLoop [] (dropWhile isWhiteSpace cs)
      else splitLoop (piece @ [c]) cs)"
  by pat_completeness auto
termination
  by (relation "measure (\<lambda>(piece, s). length s)")
     (auto simp: length_dropWhile_le less_Suc_eq_le)

definition split :: "jsstring \<Rightarrow> fingerprint" where
  "split s = (if s = [] then [[]] else splitLoop [] s)"

subsection \<open>generateFingerprint\<close>

text \<open>The callback of \<^verbatim>\<open>messageList.map\<close>.\<close>

fun words :: "jsvalue \<Rightarrow> error + fingerprint" where
  "words (Str message) = Inr (split (replaceAddress message))"
| "words (Arr message) = Inr message"
| "words Other = Inl InvalidMessage"

text \<open>\<^verbatim>\<open>messageList.map(...)\<close>: the first element that throws ends the call.\<close>

fun mapWords :: "jsvalue list \<Rightarrow> error + fingerprint list" where
  "mapWords [] = Inr []"
| "mapWords (message # rest) =
     (case words message of
        Inl e \<Rightarrow> Inl e
      | Inr ws \<Rightarrow> (case mapWords rest of Inl e \<Rightarrow> Inl e | Inr wss \<Rightarrow> Inr (ws # wss)))"

text \<open>The loop over the positions of the first message.\<close>

definition inferWord :: "fingerprint list \<Rightarrow> nat \<Rightarrow> jsstring" where
  "inferWord messages_words i =
     (let word = hd messages_words ! i;
          isSame = list_all (\<lambda>ws. ws ! i = word) messages_words
      in if isSame then word else nonce)"

definition generateFingerprint :: "jsvalue list \<Rightarrow> error + fingerprint" where
  "generateFingerprint messageList =
     (if length messageList = 0 then Inl EmptyInput
      else case mapWords messageList of
        Inl e \<Rightarrow> Inl e
      | Inr messages_words \<Rightarrow>
          if length messages_words = 1 then Inr (hd messages_words)
          else if list_ex (\<lambda>ws. length ws \<noteq> length (hd messages_words)) messages_words
          then Inl LengthMismatch
          else Inr (map (inferWord messages_words) [0..<length (hd messages_words)]))"

subsection \<open>compareFingerprint\<close>

text \<open>The loop of \<^verbatim>\<open>compareFingerprint\<close>, run once the lengths are known to be equal.\<close>

fun compareWords :: "fingerprint \<Rightarrow> fingerprint \<Rightarrow> bool" where
  "compareWords (word1 # f1) (word2 # f2) =
     (if word1 = nonce \<or> word2 = nonce then compareWords f1 f2
      else if word1 \<noteq> word2 then False
      else compareWords f1 f2)"
| "compareWords _ _ = True"

definition compareFingerprint :: "fingerprint \<Rightarrow> fingerprint \<Rightarrow> bool" where
  "compareFingerprint f1 f2 =
     (if length f1 \<noteq> length f2 then False else compareWords f1 f2)"

subsection \<open>Findings\<close>

record risk =
  severity :: jsstring
  title :: jsstring
  body :: jsstring

text \<open>\<^verbatim>\<open>s.indexOf(t)\<close>: the least position at which \<open>t\<close> starts in \<open>s\<close>, or \<open>-1\<close>.\<close>

fun indexOfFrom :: "jsstring \<Rightarrow> jsstring \<Rightarrow> int \<Rightarrow> int" where
  "indexOfFrom [] t k = (if t = [] then k else - 1)"
| "indexOfFrom (c # cs) t k = (if prefix t (c # cs) then k else indexOfFrom cs t (k + 1))"

definition indexOf :: "jsstring \<Rightarrow> jsstring \<Rightarrow> int" where
  "indexOf s t = indexOfFrom s t 0"

text \<open>\<^verbatim>\<open>xs.join(sep)\<close>\<close>

fun join :: "jsstring \<Rightarrow> jsstring list \<Rightarrow> jsstring" where
  "join sep [] = []"
| "join sep [x] = x"
| "join sep (x # y # ys) = x @ sep @ join sep (y # ys)"

text \<open>
  The two \<^verbatim>\<open>for (let d in ...)\<close> loops have the same body: the domain itself is
  skipped, and every other domain whose fingerprint compares equal is pushed.
\<close>

fun matchingDomains :: "jsstring \<Rightarrow> fingerprint \<Rightarrow> fingerprintTable \<Rightarrow> jsstring list" where
  "matchingDomains domain f1 [] = []"
| "matchingDomains domain f1 ((d, f2) # rest) =
     (if d = domain then matchingDomains domain f1 rest
      else if compareFingerprint f1 f2 then d # matchingDomains domain f1 rest
      else matchingDomains domain f1 rest)"

text \<open>The four findings.\<close>

definition phishingInfo :: risk where
  "phishingInfo =
     \<lparr>severity = js ''info'', title = js ''Phishing Attack'',
      body = js ''This website has the risk of phishing attack. The message you signed does not include domain name. Please check this website'' @ [0x27] @ js ''s domain name.''\<rparr>"

definition phishingWarning :: "jsstring list \<Rightarrow> risk" where
  "phishingWarning similarDomains =
     \<lparr>severity = js ''warning'', title = js ''Phishing Attack'',
      body = js ''This message is the same as other websites. This website can use your signature to log in to other websites!''
               @ [0x0A] @ js '' '' @ join (js '', '') similarDomains\<rparr>"

definition phishingDanger :: "jsstring \<Rightarrow> jsstring list \<Rightarrow> risk" where
  "phishingDanger domain victim_domains =
     \<lparr>severity = js ''danger'', title = js ''Phishing Attack'',
      body = js ''This is a phishing website.'' @ [0x0A] @ js '' This website'' @ [0x27]
               @ js ''s domain is '' @ domain @ js ''. You had signed similar messages on ''
               @ join (js '', '') victim_domains @ js ''. Please check this website'' @ [0x27]
               @ js ''s domain name.''\<rparr>"

definition replayInfo :: risk where
  "replayInfo =
     \<lparr>severity = js ''info'', title = js ''Replay Attack'',
      body = js ''This message has the risk of replay attack, because it does not include nonce.''\<rparr>"

text \<open>\<^verbatim>\<open>if (Risks.length > 0) { Risks.pop() }\<close>\<close>

definition pop :: "risk list \<Rightarrow> risk list" where
  "pop Risks = (if length Risks > 0 then butlast Risks else Risks)"

subsection \<open>createMessageInfo\<close>

record msg =
  address :: jsstring
  message :: jsvalue
  domain :: jsstring
  web3Name :: jsstring

record messageInfo = msg +
  createdAt :: int
  fingerprint :: fingerprint

text \<open>
  \<^verbatim>\<open>globalFingerprints[domain]\<close> is pushed when it is truthy: a stored fingerprint,
  or an inherited property, which is neither a string nor an array. The \<^verbatim>\<open>catch\<close>
  clause catches every error of the first attempt; an error of the second attempt leaves
  the function.
\<close>

definition createMessageInfo :: "int \<Rightarrow> msg \<Rightarrow> fingerprintTable \<Rightarrow> error + messageInfo" where
  "createMessageInfo now msg globalFingerprints =
     (let messageList =
            (case getProperty globalFingerprints (domain msg) of
               Own f \<Rightarrow> [message msg, Arr f]
             | Inherited \<Rightarrow> [message msg, Other]
             | Undefined \<Rightarrow> [message msg]);
          attempt =
            (case generateFingerprint messageList of
               Inr f \<Rightarrow> Inr f
             | Inl e \<Rightarrow> generateFingerprint [message msg])
      in case attempt of
           Inl e \<Rightarrow> Inl e
         | Inr f \<Rightarrow>
             Inr \<lparr>address = address msg, message = message msg, domain = domain msg,
                  web3Name = web3Name msg, createdAt = now, fingerprint = f\<rparr>)"

subsection \<open>checkMessageBeforeSign\<close>

record signedEntry =
  localFingerprints :: fingerprintTable
  localMessages :: "(int \<times> messageInfo) list"

type_synonym signedMessages = "(jsstring \<times> signedEntry) list"

text \<open>
  A message that is not a string has no \<^verbatim>\<open>toLowerCase\<close>: a TypeError.

  \<^verbatim>\<open>signedMessages[address]\<close> is \<^verbatim>\<open>undefined\<close> for an unknown signer, and is the
  signer's entry when there is one. When the address is only the name of an inherited
  property, the value is not \<^verbatim>\<open>undefined\<close> and its \<^verbatim>\<open>localFingerprints\<close> is:
  the loop over it runs no iteration, and \<^verbatim>\<open>localFingerprints[domain]\<close> in the
  replay check is a TypeError.

  \<^verbatim>\<open>localFingerprints[domain] != undefined\<close> holds for a stored fingerprint and for
  an inherited property alike.

  \<^verbatim>\<open>globalFingerprints[similarDomains[0]]\<close> is the stored fingerprint of a domain
  that the loop has visited; anything else would have no \<^verbatim>\<open>some\<close>: a TypeError.
\<close>

definition checkMessageBeforeSign ::
  "(jsstring \<Rightarrow> jsstring) \<Rightarrow> messageInfo \<Rightarrow> signedMessages \<Rightarrow> fingerprintTable \<Rightarrow> error + risk list"
where
  "checkMessageBeforeSign toLowerCase messageInfo signedMessages globalFingerprints =
     (case message messageInfo of
        Str msgText \<Rightarrow>
          (let domainInMsg =
                 (indexOf (toLowerCase msgText) (toLowerCase (domain messageInfo)) \<noteq> - 1);
               Risks1 = (if \<not> domainInMsg then [phishingInfo] else []);
               similarDomains =
                 matchingDomains (domain messageInfo) (fingerprint messageInfo) globalFingerprints;
               Risks2 =
                 (if length similarDomains > 0 then pop Risks1 @ [phishingWarning similarDomains]
                  else Risks1);
               Risks3 =
                 (case getProperty signedMessages (address messageInfo) of
                    Undefined \<Rightarrow> Risks2
                  | Inherited \<Rightarrow> Risks2
                  | Own entry \<Rightarrow>
                      (let victim_domains =
                             matchingDomains (domain messageInfo) (fingerprint messageInfo)
                               (localFingerprints entry)
                       in if length victim_domains > 0
                          then pop Risks2 @ [phishingDanger (domain messageInfo) victim_domains]
                          else Risks2));
               hasLocal =
                 (case getProperty signedMessages (address messageInfo) of
                    Undefined \<Rightarrow> Inr False
                  | Inherited \<Rightarrow> Inl TypeError
                  | Own entry \<Rightarrow>
                      (case getProperty (localFingerprints entry) (domain messageInfo) of
                         Undefined \<Rightarrow> Inr False
                       | _ \<Rightarrow> Inr True));
               nonceInMsg =
                 (case hasLocal of
                    Inl e \<Rightarrow> Inl e
                  | Inr True \<Rightarrow> Inr (list_ex (\<lambda>item. item = nonce) (fingerprint messageInfo))
                  | Inr False \<Rightarrow>
                      if length similarDomains > 0
                      then (case getProperty globalFingerprints (hd similarDomains) of
                              Own similarFingerprint \<Rightarrow>
                                Inr (list_ex (\<lambda>item. item = nonce) similarFingerprint)
                            | _ \<Rightarrow> Inl TypeError)
                      else Inr False)
           in case nonceInMsg of
                Inl e \<Rightarrow> Inl e
              | Inr n \<Rightarrow> Inr (if \<not> n then Risks3 @ [replayInfo] else Risks3))
      | _ \<Rightarrow> Inl TypeError)"

subsection \<open>Notions of the specification\<close>

text \<open>
  The token sequence of an input of \<open>generateFingerprint\<close>: the split of the normalised
  text for a string, the array itself for a fingerprint.
\<close>

definition tokens :: "jsvalue \<Rightarrow> fingerprint" where
  "tokens v = (case words v of Inr ws \<Rightarrow> ws | Inl e \<Rightarrow> [])"



text \<open>
  The normalisation and the split of a message text, said without the functions of the
  module. The hexadecimal digits and the white space of \<^verbatim>\<open>\s\<close> (TAB, LF, VT, FF, CR,
  SP, NBSP, the other space separators, LS, PS and the byte order mark) are listed one by
  one.
\<close>

definition hexDigits :: "jschar list" where
  "hexDigits = js ''0123456789abcdefABCDEF''"

text \<open>An address: \<^verbatim>\<open>0x\<close> and 40 hexadecimal digits.\<close>

definition isAddress :: "jsstring \<Rightarrow> bool" where
  "isAddress a \<longleftrightarrow>
     length a = 42 \<and> take 2 a = js ''0x'' \<and> list_all (\<lambda>c. c \<in> set hexDigits) (drop 2 a)"

text \<open>
  \<open>addressesReplaced m r\<close>: \<open>r\<close> is \<open>m\<close> with every address replaced by
  \<^verbatim>\<open>_address_\<close>, the addresses taken from the left, each after the end of the one
  before. Either no address starts anywhere in \<open>m\<close>; or \<open>m\<close> is \<open>u\<close>, an address
  and \<open>t\<close>, no address starts within \<open>u\<close>, and the addresses of \<open>t\<close> are replaced
  in turn.
\<close>

inductive addressesReplaced :: "jsstring \<Rightarrow> jsstring \<Rightarrow> bool" where
  none: "(\<forall>p. \<not> isAddress (take 42 (drop p s))) \<Longrightarrow> addressesReplaced s s"
| first: "isAddress a \<Longrightarrow> (\<forall>p<length u. \<not> isAddress (take 42 (drop p (u @ a @ t)))) \<Longrightarrow>
          addressesReplaced t r \<Longrightarrow>
          addressesReplaced (u @ a @ t) (u @ js ''_address_'' @ r)"

definition whiteSpaceChars :: "jschar list" where
  "whiteSpaceChars =
     [0x0009, 0x000A, 0x000B, 0x000C, 0x000D, 0x0020, 0x00A0, 0x1680,
      0x2000, 0x2001, 0x2002, 0x2003, 0x2004, 0x2005, 0x2006, 0x2007, 0x2008, 0x2009, 0x200A,
      0x2028, 0x2029, 0x202F, 0x205F, 0x3000, 0xFEFF]"

text \<open>A word has no white space; a run is white space only and not empty.\<close>

definition isWord :: "jsstring \<Rightarrow> bool" where
  "isWord w \<longleftrightarrow> list_all (\<lambda>c. c \<notin> set whiteSpaceChars) w"

definition isRun :: "jsstring \<Rightarrow> bool" where
  "isRun sp \<longleftrightarrow> sp \<noteq> [] \<and> list_all (\<lambda>c. c \<in> set whiteSpaceChars) sp"

text \<open>
  What follows a word in a token sequence: nothing, or a run, a word and so on. A word
  between two runs is not empty, so that each run is a whole run of the text.
\<close>

fun runsAndWords :: "fingerprint \<Rightarrow> bool" where
  "runsAndWords [] = True"
| "runsAndWords [sp] = False"
| "runsAndWords (sp # w # rest) =
     (isRun sp \<and> isWord w \<and> (rest = [] \<or> w \<noteq> []) \<and> runsAndWords rest)"

text \<open>
  \<open>tokenSplit s f\<close>: the tokens \<open>f\<close> are the words and the runs of white space of
  \<open>s\<close>, in order, from a first word to a last one (either may be empty).
\<close>

definition tokenSplit :: "jsstring \<Rightarrow> fingerprint \<Rightarrow> bool" where
  "tokenSplit s f \<longleftrightarrow>
     concat f = s \<and> (case f of [] \<Rightarrow> False | w # rest \<Rightarrow> isWord w \<and> runsAndWords rest)"

text \<open>The token sequences of the inputs all have the same length.\<close>

definition sameLength :: "jsvalue list \<Rightarrow> bool" where
  "sameLength ml \<longleftrightarrow> (\<forall>u\<in>set ml. \<forall>v\<in>set ml. length (tokens u) = length (tokens v))"

text \<open>Replacing the positions \<open>S\<close> of a fingerprint with the placeholder \<^verbatim>\<open>_nonce_\<close>.\<close>

definition maskPositions :: "nat set \<Rightarrow> fingerprint \<Rightarrow> fingerprint" where
  "maskPositions S b = map (\<lambda>i. if i \<in> S then nonce else b ! i) [0..<length b]"

text \<open>
  Some domain of the table other than \<open>site\<close> has a fingerprint that compares equal
  to \<open>f\<close>.
\<close>

definition otherDomainMatches :: "jsstring \<Rightarrow> fingerprint \<Rightarrow> fingerprintTable \<Rightarrow> bool" where
  "otherDomainMatches site f tab \<longleftrightarrow>
     (\<exists>p\<in>set tab. fst p \<noteq> site \<and> compareFingerprint f (snd p))"

text \<open>The domains the danger finding names: those matching in the signer's local history.\<close>

definition victimsOf :: "messageInfo \<Rightarrow> signedMessages \<Rightarrow> jsstring list" where
  "victimsOf info sm =
     (case map_of sm (address info) of
        None \<Rightarrow> []
      | Some entry \<Rightarrow>
          matchingDomains (domain info) (fingerprint info) (localFingerprints entry))"

text \<open>The signer has a local fingerprint stored for the domain of the message.\<close>

definition hasLocalFingerprint :: "messageInfo \<Rightarrow> signedMessages \<Rightarrow> bool" where
  "hasLocalFingerprint info sm \<longleftrightarrow>
     (case map_of sm (address info) of
        None \<Rightarrow> False
      | Some entry \<Rightarrow> map_of (localFingerprints entry) (domain info) \<noteq> None)"

text \<open>
  What the test \<^verbatim>\<open>localFingerprints[domain] != undefined\<close> of the replay check
  finds for a signer with an entry: a stored fingerprint, or an inherited property.
\<close>

definition seesLocalFingerprint :: "messageInfo \<Rightarrow> signedMessages \<Rightarrow> bool" where
  "seesLocalFingerprint info sm \<longleftrightarrow>
     (case map_of sm (address info) of
        None \<Rightarrow> False
      | Some entry \<Rightarrow> getProperty (localFingerprints entry) (domain info) \<noteq> Undefined)"

text \<open>
  The signer has local history, and there some other domain has a matching fingerprint.
\<close>

definition knownVictim :: "messageInfo \<Rightarrow> signedMessages \<Rightarrow> bool" where
  "knownVictim info sm \<longleftrightarrow>
     (\<exists>entry. map_of sm (address info) = Some entry \<and>
        otherDomainMatches (domain info) (fingerprint info) (localFingerprints entry))"

text \<open>
  \<^verbatim>\<open>toLowerCase\<close> on strings of ASCII code units, where it maps \<^verbatim>\<open>A\<close> to
  \<^verbatim>\<open>Z\<close> to \<^verbatim>\<open>a\<close> to \<^verbatim>\<open>z\<close> and keeps every other code unit; an instance of the
  parameter for concrete inputs.
\<close>

definition asciiLowerCase :: "jsstring \<Rightarrow> jsstring" where
  "asciiLowerCase s = map (\<lambda>c. if 0x41 \<le> c \<and> c \<le> 0x5A then c + 0x20 else c) s"

section \<open>Properties\<close>

subsection \<open>Literals\<close>

lemma js_simps: "js [] = []" "js (c # cs) = of_nat (of_char c) # js cs"
  by (simp_all add: js_def)

subsection \<open>Tokenisation\<close>

lemma concat_splitLoop: "concat (splitLoop piece s) = piece @ s"
  by (induction piece s rule: splitLoop.induct) simp_all

lemma concat_split: "concat (split s) = s"
  by (simp add: split_def concat_splitLoop)












text \<open>
  Matches are taken from the left and do not overlap: of two addresses that share a
  code unit, the first is replaced and what is left of the second stays.
\<close>

lemma replaceAddress_overlap:
  "replaceAddress (js ''0xaaaaaaaaaaaaaaaaaaaaaaaaaaaaaaaaaaaaaaa0xbbbbbbbbbbbbbbbbbbbbbbbbbbbbbbbbbbbbbbbb'') =
     js ''_address_xbbbbbbbbbbbbbbbbbbbbbbbbbbbbbbbbbbbbbbbb''"
  by code_simp




text \<open>The two character classes of the module are the listed ones.\<close>

lemma isHexDigit_iff: "isHexDigit c \<longleftrightarrow> c \<in> set hexDigits"
  unfolding isHexDigit_def hexDigits_def js_simps
  by (simp add: word_le_nat_alt word_unat_eq_iff) arith

lemma isWhiteSpace_iff: "isWhiteSpace c \<longleftrightarrow> c \<in> set whiteSpaceChars"
  unfolding isWhiteSpace_def whiteSpaceChars_def
  by (simp add: word_le_nat_alt word_unat_eq_iff) arith


text \<open>The replacement meets its description, and nothing else does.\<close>

lemma matchesAddress_isAddress: "matchesAddress s \<longleftrightarrow> isAddress (take 42 s)"
proof (cases s)
  case Nil
  then show ?thesis by (simp add: matchesAddress_def isAddress_def)
next
  case (Cons c0 s1)
  show ?thesis
  proof (cases s1)
    case Nil
    with Cons show ?thesis by (simp add: matchesAddress_def isAddress_def)
  next
    case (Cons c1 rest)
    have "length (take 40 rest) = 40 \<longleftrightarrow> 40 \<le> length rest" by auto
    with \<open>s = c0 # s1\<close> Cons show ?thesis
      by (auto simp: matchesAddress_def isAddress_def js_simps isHexDigit_iff [abs_def])
  qed
qed

lemma isAddress_length: "isAddress a \<Longrightarrow> length a = 42"
  by (simp add: isAddress_def)

lemma replaceAddress_no_match:
  "(\<forall>p. \<not> isAddress (take 42 (drop p s))) \<Longrightarrow> replaceAddress s = s"
proof (induction s)
  case Nil
  then show ?case by simp
next
  case (Cons c cs)
  from Cons.prems have "\<not> isAddress (take 42 (drop 0 (c # cs)))" by blast
  then have n: "\<not> matchesAddress (c # cs)" by (simp add: matchesAddress_isAddress)
  have "\<forall>p. \<not> isAddress (take 42 (drop p cs))"
  proof
    fix p
    from Cons.prems have "\<not> isAddress (take 42 (drop (Suc p) (c # cs)))" by blast
    then show "\<not> isAddress (take 42 (drop p cs))" by simp
  qed
  with Cons.IH n show ?case by simp
qed

lemma replaceAddress_skip:
  "(\<forall>p<length u. \<not> isAddress (take 42 (drop p (u @ s)))) \<Longrightarrow>
   replaceAddress (u @ s) = u @ replaceAddress s"
proof (induction u)
  case Nil
  then show ?case by simp
next
  case (Cons c u)
  from Cons.prems have "\<not> isAddress (take 42 (drop 0 ((c # u) @ s)))" by force
  then have n: "\<not> matchesAddress (c # u @ s)" by (simp add: matchesAddress_isAddress)
  have "\<forall>p<length u. \<not> isAddress (take 42 (drop p (u @ s)))"
  proof (intro allI impI)
    fix p assume "p < length u"
    then have "Suc p < length (c # u)" by simp
    with Cons.prems have "\<not> isAddress (take 42 (drop (Suc p) ((c # u) @ s)))" by blast
    then show "\<not> isAddress (take 42 (drop p (u @ s)))" by simp
  qed
  with Cons.IH n show ?case by simp
qed

lemma replaceAddress_match:
  assumes "isAddress a"
  shows "replaceAddress (a @ t) = js ''_address_'' @ replaceAddress t"
proof -
  from assms have len: "length a = 42" by (rule isAddress_length)
  then obtain c cs where a: "a = c # cs" by (cases a) auto
  with len have l: "length cs = 41" by simp
  have "take 42 (a @ t) = a" using len by simp
  with assms have "matchesAddress (a @ t)" by (simp add: matchesAddress_isAddress)
  with a l show ?thesis by (simp add: addressPlaceholder_def)
qed

lemma addressesReplaced_unique: "addressesReplaced m r \<Longrightarrow> r = replaceAddress m"
proof (induction rule: addressesReplaced.induct)
  case (none s)
  then show ?case by (simp add: replaceAddress_no_match)
next
  case (first a u t r)
  from first.hyps(2) have "replaceAddress (u @ a @ t) = u @ replaceAddress (a @ t)"
    by (rule replaceAddress_skip)
  with first show ?case by (simp add: replaceAddress_match)
qed

lemma addressesReplaced_Cons:
  assumes "addressesReplaced cs r" and n: "\<not> matchesAddress (c # cs)"
  shows "addressesReplaced (c # cs) (c # r)"
  using assms(1)
proof (cases rule: addressesReplaced.cases)
  case none
  have "\<forall>p. \<not> isAddress (take 42 (drop p (c # cs)))"
  proof
    fix p
    show "\<not> isAddress (take 42 (drop p (c # cs)))"
    proof (cases p)
      case 0
      with n show ?thesis by (simp add: matchesAddress_isAddress)
    next
      case (Suc q)
      with none show ?thesis by simp
    qed
  qed
  then have "addressesReplaced (c # cs) (c # cs)" by (rule addressesReplaced.none)
  with none show ?thesis by simp
next
  case (first a u t r')
  have "\<forall>p<length (c # u). \<not> isAddress (take 42 (drop p ((c # u) @ a @ t)))"
  proof (intro allI impI)
    fix p assume p: "p < length (c # u)"
    show "\<not> isAddress (take 42 (drop p ((c # u) @ a @ t)))"
    proof (cases p)
      case 0
      with n first show ?thesis by (simp add: matchesAddress_isAddress)
    next
      case (Suc q)
      with p first show ?thesis by simp
    qed
  qed
  with first(3) have "addressesReplaced ((c # u) @ a @ t) ((c # u) @ js ''_address_'' @ r')"
    using first(5) by (rule addressesReplaced.first)
  with first show ?thesis by simp
qed

lemma addressesReplaced_replaceAddress: "addressesReplaced m (replaceAddress m)"
proof (induction m rule: replaceAddress.induct)
  case 1
  have "\<forall>p. \<not> isAddress (take 42 (drop p ([] :: jsstring)))" by (simp add: isAddress_def)
  then have "addressesReplaced ([] :: jsstring) []" by (rule addressesReplaced.none)
  then show ?case by simp
next
  case (2 c cs)
  show ?case
  proof (cases "matchesAddress (c # cs)")
    case True
    then have a: "isAddress (take 42 (c # cs))" by (simp add: matchesAddress_isAddress)
    from 2(1) [OF True] have ih: "addressesReplaced (drop 41 cs) (replaceAddress (drop 41 cs))" .
    have "\<forall>p<length ([] :: jsstring).
        \<not> isAddress (take 42 (drop p ([] @ take 42 (c # cs) @ drop 41 cs)))" by simp
    with a have "addressesReplaced ([] @ take 42 (c # cs) @ drop 41 cs)
        ([] @ js ''_address_'' @ replaceAddress (drop 41 cs))"
      using ih by (rule addressesReplaced.first)
    moreover have "take 42 (c # cs) @ drop 41 cs = c # cs"
      using append_take_drop_id [of 42 "c # cs"] by simp
    ultimately show ?thesis using True by (simp add: addressPlaceholder_def)
  next
    case False
    from 2(2) [OF False] have "addressesReplaced cs (replaceAddress cs)" .
    then have "addressesReplaced (c # cs) (c # replaceAddress cs)"
      using False by (rule addressesReplaced_Cons)
    with False show ?thesis by simp
  qed
qed


text \<open>The split meets its description, and nothing else does.\<close>

lemma isWord_iff: "isWord w \<longleftrightarrow> \<not> list_ex isWhiteSpace w"
  by (simp add: isWord_def list_all_iff list_ex_iff isWhiteSpace_iff)

lemma isRun_iff: "isRun sp \<longleftrightarrow> sp \<noteq> [] \<and> list_all isWhiteSpace sp"
  by (simp add: isRun_def isWhiteSpace_iff [abs_def])

lemma split_splitLoop: "split s = splitLoop [] s"
  by (simp add: split_def)

lemma splitLoop_spec:
  "isWord piece \<Longrightarrow>
   \<exists>w rest. splitLoop piece s = w # rest \<and> isWord w \<and> runsAndWords rest \<and>
     (w = [] \<longrightarrow> piece = [] \<and> (s = [] \<or> isWhiteSpace (hd s)))"
proof (induction piece s rule: splitLoop.induct)
  case (1 piece)
  then show ?case by simp
next
  case (2 piece c cs)
  show ?case
  proof (cases "isWhiteSpace c")
    case True
    have "isWord []" by (simp add: isWord_iff)
    from 2(1) [OF True this] obtain w rest where
      sl: "splitLoop [] (dropWhile isWhiteSpace cs) = w # rest"
      and w: "isWord w" and r: "runsAndWords rest"
      and e: "w = [] \<longrightarrow> dropWhile isWhiteSpace cs = [] \<or>
                isWhiteSpace (hd (dropWhile isWhiteSpace cs))"
      by blast
    have run: "isRun (c # takeWhile isWhiteSpace cs)"
      using True by (auto simp: isRun_iff list_all_iff dest: set_takeWhileD)
    have last: "rest = [] \<or> w \<noteq> []"
    proof (cases "w = []")
      case False
      then show ?thesis by simp
    next
      case True
      have "dropWhile isWhiteSpace cs = []"
      proof (rule ccontr)
        assume ne: "dropWhile isWhiteSpace cs \<noteq> []"
        then have "\<not> isWhiteSpace (hd (dropWhile isWhiteSpace cs))" by (rule hd_dropWhile)
        with e True ne show False by simp
      qed
      with sl show ?thesis by simp
    qed
    from True sl w r run last 2(3) show ?thesis by simp
  next
    case False
    with 2(3) have "isWord (piece @ [c])" by (simp add: isWord_iff list_ex_iff)
    from 2(2) [OF False this] obtain w rest where
      "splitLoop (piece @ [c]) cs = w # rest" "isWord w" "runsAndWords rest" "w \<noteq> []"
      by blast
    with False show ?thesis by simp
  qed
qed

lemma tokenSplit_split: "tokenSplit s (split s)"
proof -
  have "isWord []" by (simp add: isWord_iff)
  from splitLoop_spec [OF this, of s] obtain w rest where
    "splitLoop [] s = w # rest" "isWord w" "runsAndWords rest" by blast
  then show ?thesis
    using concat_split [of s] by (simp add: tokenSplit_def split_splitLoop)
qed

lemma splitLoop_word:
  "isWord w \<Longrightarrow> splitLoop piece (w @ s) = splitLoop (piece @ w) s"
  by (induction w arbitrary: piece) (simp_all add: isWord_iff)

lemma splitLoop_tokens:
  "runsAndWords rest \<Longrightarrow> isWord w \<Longrightarrow>
   splitLoop piece (concat (w # rest)) = (piece @ w) # rest"
proof (induction rest arbitrary: piece w rule: runsAndWords.induct)
  case 1
  then show ?case using splitLoop_word [of w piece "[]"] by simp
next
  case (2 sp)
  then show ?case by simp
next
  case (3 sp w' rest)
  from 3(2) have run: "isRun sp" and w': "isWord w'" and last: "rest = [] \<or> w' \<noteq> []"
    and r: "runsAndWords rest" by simp_all
  from run obtain c sp' where sp: "sp = c # sp'" and c: "isWhiteSpace c"
    and sp': "list_all isWhiteSpace sp'"
    by (cases sp) (auto simp: isRun_iff)
  define tail where "tail = concat (w' # rest)"
  have stop: "tail = [] \<or> \<not> isWhiteSpace (hd tail)"
  proof (cases "w' = []")
    case True
    with last have "rest = []" by simp
    with True show ?thesis by (simp add: tail_def)
  next
    case False
    then have "hd tail = hd w'" by (simp add: tail_def)
    moreover from False have "hd w' \<in> set w'" by simp
    ultimately show ?thesis using w' by (auto simp: isWord_iff list_ex_iff)
  qed
  have tw: "takeWhile isWhiteSpace (sp' @ tail) = sp'"
    using sp' stop by (cases tail) (auto simp: list_all_iff takeWhile_append2)
  have dw: "dropWhile isWhiteSpace (sp' @ tail) = tail"
    using sp' stop by (cases tail) (auto simp: list_all_iff dropWhile_append2)
  have "splitLoop piece (concat (w # sp # w' # rest)) = splitLoop (piece @ w) (sp @ tail)"
    using splitLoop_word [OF 3(3), of piece "sp @ tail"] by (simp add: tail_def)
  also have "\<dots> = (piece @ w) # sp # splitLoop [] tail"
    using c by (simp add: sp tw dw)
  also have "splitLoop [] tail = w' # rest"
    unfolding tail_def using 3(1) [OF r w', of "[]"] by simp
  finally show ?case .
qed

lemma tokenSplit_unique: "tokenSplit s f \<Longrightarrow> f = split s"
proof -
  assume t: "tokenSplit s f"
  then obtain w rest where f: "f = w # rest" and w: "isWord w" and r: "runsAndWords rest"
    by (cases f) (auto simp: tokenSplit_def)
  from t have c: "concat f = s" by (simp add: tokenSplit_def)
  from splitLoop_tokens [OF r w, of "[]"] f c show ?thesis
    by (simp add: split_splitLoop)
qed

lemma js_append: "js (a @ b) = js a @ js b"
  by (simp add: js_def)

lemma isAddress_short: "length s < 42 \<Longrightarrow> \<not> isAddress (take 42 (drop p s))"
  by (auto simp: isAddress_def)

lemma address_example:
  "addressesReplaced (js ''I am 0x52908400098527886E0F7030069857D2E4169EE7 today'')
     (js ''I am _address_ today'')"
proof -
  have a: "isAddress (js ''0x52908400098527886E0F7030069857D2E4169EE7'')"
    by code_simp
  have "list_all (\<lambda>p. \<not> isAddress (take 42 (drop p
      (js ''I am '' @ js ''0x52908400098527886E0F7030069857D2E4169EE7'' @ js '' today''))))
      [0..<length (js ''I am '')]"
    by code_simp
  then have l: "\<forall>p<length (js ''I am ''). \<not> isAddress (take 42 (drop p
      (js ''I am '' @ js ''0x52908400098527886E0F7030069857D2E4169EE7'' @ js '' today'')))"
    by (simp add: list_all_iff)
  have "length (js '' today'') < 42" by (simp add: js_def)
  then have "\<forall>p. \<not> isAddress (take 42 (drop p (js '' today'')))"
    using isAddress_short by blast
  then have t: "addressesReplaced (js '' today'') (js '' today'')"
    by (rule addressesReplaced.none)
  from a l t have "addressesReplaced
      (js ''I am '' @ js ''0x52908400098527886E0F7030069857D2E4169EE7'' @ js '' today'')
      (js ''I am '' @ js ''_address_'' @ js '' today'')"
    by (rule addressesReplaced.first)
  then show ?thesis by (simp add: js_def)
qed

lemma tokens_example_address:
  "tokenSplit (js ''I am _address_ today'')
     [js ''I'', js '' '', js ''am'', js '' '', js ''_address_'', js '' '', js ''today'']"
  by code_simp

text \<open>
  C6. For every message text there are a normalised text and a token sequence that meet
  the description above: every address replaced by \<^verbatim>\<open>_address_\<close>, then the split
  into words and runs of white space. \<open>generateFingerprint\<close> on the text alone
  returns that token sequence, with no token turned into \<^verbatim>\<open>_nonce_\<close>; given the
  token sequence as its only input it returns it unchanged; and any normalised text and
  token sequence that meet the description give this same result.
\<close>

theorem single_message_fingerprint:
  "\<exists>r f. addressesReplaced m r \<and> tokenSplit r f \<and>
      generateFingerprint [Str m] = Inr f \<and> generateFingerprint [Arr f] = Inr f \<and>
      (\<forall>r' f'. addressesReplaced m r' \<longrightarrow> tokenSplit r' f' \<longrightarrow> f' = f)"
proof (intro exI conjI allI impI)
  show "addressesReplaced m (replaceAddress m)" by (rule addressesReplaced_replaceAddress)
  show "tokenSplit (replaceAddress m) (split (replaceAddress m))" by (rule tokenSplit_split)
  show "generateFingerprint [Str m] = Inr (split (replaceAddress m))"
    by (simp add: generateFingerprint_def)
  show "generateFingerprint [Arr (split (replaceAddress m))] = Inr (split (replaceAddress m))"
    by (simp add: generateFingerprint_def)
next
  fix r' f'
  assume "addressesReplaced m r'" and t: "tokenSplit r' f'"
  then have "r' = replaceAddress m" by (simp add: addressesReplaced_unique)
  with t show "f' = split (replaceAddress m)" by (simp add: tokenSplit_unique)
qed

theorem single_message_fingerprint_witness:
  "addressesReplaced (js ''I am 0x52908400098527886E0F7030069857D2E4169EE7 today'')
     (js ''I am _address_ today'') \<and>
   tokenSplit (js ''I am _address_ today'')
     [js ''I'', js '' '', js ''am'', js '' '', js ''_address_'', js '' '', js ''today''] \<and>
   generateFingerprint [Str (js ''I am 0x52908400098527886E0F7030069857D2E4169EE7 today'')] =
     Inr [js ''I'', js '' '', js ''am'', js '' '', js ''_address_'', js '' '', js ''today'']"
proof -
  from single_message_fingerprint
    [of "js ''I am 0x52908400098527886E0F7030069857D2E4169EE7 today''"]
  obtain f where
    g: "generateFingerprint [Str (js ''I am 0x52908400098527886E0F7030069857D2E4169EE7 today'')] =
          Inr f"
    and u: "\<forall>r' f'. addressesReplaced
          (js ''I am 0x52908400098527886E0F7030069857D2E4169EE7 today'') r' \<longrightarrow>
          tokenSplit r' f' \<longrightarrow> f' = f"
    by blast
  from u address_example tokens_example_address
  have "[js ''I'', js '' '', js ''am'', js '' '', js ''_address_'', js '' '', js ''today''] = f"
    by blast
  with g address_example tokens_example_address show ?thesis by simp
qed

subsection \<open>Comparison\<close>

lemma compareWords_all2:
  "length f1 = length f2 \<Longrightarrow>
   compareWords f1 f2 = list_all2 (\<lambda>w1 w2. w1 = nonce \<or> w2 = nonce \<or> w1 = w2) f1 f2"
  by (induction f1 f2 rule: list_induct2) auto

lemma compareFingerprint_nth:
  "compareFingerprint f1 f2 \<longleftrightarrow>
     length f1 = length f2 \<and>
     (\<forall>i < length f1. f1 ! i = nonce \<or> f2 ! i = nonce \<or> f1 ! i = f2 ! i)"
  by (auto simp: compareFingerprint_def compareWords_all2 list_all2_conv_all_nth)

text \<open>
  C7. For fingerprints of the same length, a comparison that holds still holds after any
  set of positions of the second one is replaced with \<^verbatim>\<open>_nonce_\<close>; and there is a
  comparison that fails and holds after such a replacement.
\<close>

theorem compareFingerprint_mask_monotone:
  "(\<forall>a b S. length a = length b \<longrightarrow> compareFingerprint a b \<longrightarrow>
       compareFingerprint a (maskPositions S b)) \<and>
   (\<exists>a b S. length a = length b \<and> \<not> compareFingerprint a b \<and>
       compareFingerprint a (maskPositions S b))"
proof (intro conjI allI impI)
  fix a b :: fingerprint and S
  assume "length a = length b" and "compareFingerprint a b"
  then show "compareFingerprint a (maskPositions S b)"
    by (auto simp: compareFingerprint_nth maskPositions_def)
next
  have "\<not> compareFingerprint [js ''a''] [js ''b'']"
    by (simp add: compareFingerprint_def nonce_def js_simps)
  moreover have "compareFingerprint [js ''a''] (maskPositions {0} [js ''b''])"
    by (simp add: compareFingerprint_def maskPositions_def)
  ultimately show "\<exists>a b S. length a = length b \<and> \<not> compareFingerprint a b \<and>
       compareFingerprint a (maskPositions S b)"
    by (intro exI [of _ "[js ''a'']"] exI [of _ "[js ''b'']"] exI [of _ "{0}"]) simp
qed

theorem compareFingerprint_mask_monotone_witness:
  "length [js ''hi'', js ''7''] = length [js ''hi'', js ''7''] \<and>
   compareFingerprint [js ''hi'', js ''7''] [js ''hi'', js ''7''] \<and>
   compareFingerprint [js ''hi'', js ''7''] (maskPositions {1} [js ''hi'', js ''7''])"
proof -
  have c: "compareFingerprint [js ''hi'', js ''7''] [js ''hi'', js ''7'']"
    by (simp add: compareFingerprint_def)
  from compareFingerprint_mask_monotone
  have "compareFingerprint [js ''hi'', js ''7''] (maskPositions {1} [js ''hi'', js ''7''])"
    using c by blast
  with c show ?thesis by simp
qed

subsection \<open>Inference over several inputs\<close>

lemma words_tokens: "v \<noteq> Other \<Longrightarrow> words v = Inr (tokens v)"
  by (cases v) (simp_all add: tokens_def)

lemma mapWords_tokens: "Other \<notin> set ml \<Longrightarrow> mapWords ml = Inr (map tokens ml)"
  by (induction ml) (auto simp: words_tokens)

lemma mapWords_Other: "Other \<in> set ml \<Longrightarrow> mapWords ml = Inl InvalidMessage"
proof (induction ml)
  case Nil
  then show ?case by simp
next
  case (Cons v ml)
  then show ?case by (cases v) (auto split: sum.splits)
qed

lemma generateFingerprint_Other:
  "Other \<in> set ml \<Longrightarrow> generateFingerprint ml = Inl InvalidMessage"
  by (auto simp: generateFingerprint_def mapWords_Other)

lemma sameLength_hd:
  assumes "ml \<noteq> []"
  shows "list_ex (\<lambda>ws. length ws \<noteq> length (tokens (hd ml))) (map tokens ml) \<longleftrightarrow>
         \<not> sameLength ml"
proof
  assume "list_ex (\<lambda>ws. length ws \<noteq> length (tokens (hd ml))) (map tokens ml)"
  then obtain v where "v \<in> set ml" "length (tokens v) \<noteq> length (tokens (hd ml))"
    using assms by (auto simp: list_ex_iff hd_map)
  moreover have "hd ml \<in> set ml" using assms by simp
  ultimately show "\<not> sameLength ml" unfolding sameLength_def by blast
next
  assume "\<not> sameLength ml"
  then obtain u v where uv: "u \<in> set ml" "v \<in> set ml"
    and ne: "length (tokens u) \<noteq> length (tokens v)" unfolding sameLength_def by blast
  have "\<exists>w\<in>set ml. length (tokens w) \<noteq> length (tokens (hd ml))"
  proof (cases "length (tokens u) = length (tokens (hd ml))")
    case True
    with ne have "length (tokens v) \<noteq> length (tokens (hd ml))" by simp
    with uv show ?thesis by blast
  next
    case False
    with uv show ?thesis by blast
  qed
  then show "list_ex (\<lambda>ws. length ws \<noteq> length (tokens (hd ml))) (map tokens ml)"
    using assms by (simp add: list_ex_iff hd_map)
qed

lemma sameLength_single: "sameLength [v]"
  by (simp add: sameLength_def)

lemma generateFingerprint_tokens:
  assumes "Other \<notin> set ml"
  shows "generateFingerprint ml =
     (if ml = [] then Inl EmptyInput
      else if length ml = 1 then Inr (tokens (hd ml))
      else if \<not> sameLength ml then Inl LengthMismatch
      else Inr (map (inferWord (map tokens ml)) [0..<length (tokens (hd ml))]))"
proof (cases "ml = []")
  case True
  then show ?thesis by (simp add: generateFingerprint_def)
next
  case False
  have "mapWords ml = Inr (map tokens ml)" using assms by (rule mapWords_tokens)
  then show ?thesis using False
    by (simp add: generateFingerprint_def sameLength_hd [OF False] hd_map del: mapWords.simps)
qed

lemma length_cases: "ml \<noteq> [] \<Longrightarrow> length ml = 1 \<or> 2 \<le> length ml"
  by (cases ml) (auto simp: Suc_le_eq)

lemma inferWord_tokens:
  "ml \<noteq> [] \<Longrightarrow> inferWord (map tokens ml) i =
     (if list_all (\<lambda>v. tokens v ! i = tokens (hd ml) ! i) ml then tokens (hd ml) ! i else nonce)"
  by (simp add: inferWord_def Let_def hd_map list_all_iff)

lemma tokens_login17: "tokens (Str (js ''login 17'')) = [js ''login'', js '' '', js ''17'']"
  by (simp add: tokens_def split_def js_simps isWhiteSpace_def matchesAddress_def)

lemma tokens_login42: "tokens (Str (js ''login 42'')) = [js ''login'', js '' '', js ''42'']"
  by code_simp

text \<open>
  C5. \<open>generateFingerprint\<close> fails with \<open>EmptyInput\<close> exactly on the empty list. On
  inputs that are strings and fingerprints it fails with \<open>LengthMismatch\<close> exactly when
  there are two or more of them and their token sequences do not all have the same
  length, and on every other such list it returns a fingerprint.
\<close>

theorem generateFingerprint_errors:
  "(generateFingerprint ml = Inl EmptyInput \<longleftrightarrow> ml = []) \<and>
   (Other \<notin> set ml \<longrightarrow>
      (generateFingerprint ml = Inl LengthMismatch \<longleftrightarrow> 2 \<le> length ml \<and> \<not> sameLength ml) \<and>
      (ml \<noteq> [] \<and> \<not> (2 \<le> length ml \<and> \<not> sameLength ml) \<longrightarrow>
         (\<exists>f. generateFingerprint ml = Inr f)))"
proof (intro conjI impI)
  show "generateFingerprint ml = Inl EmptyInput \<longleftrightarrow> ml = []"
  proof (cases "Other \<in> set ml")
    case True
    then have "generateFingerprint ml = Inl InvalidMessage" by (rule generateFingerprint_Other)
    moreover from True have "ml \<noteq> []" by auto
    ultimately show ?thesis by simp
  next
    case False
    then show ?thesis by (simp add: generateFingerprint_tokens)
  qed
next
  assume no: "Other \<notin> set ml"
  show "generateFingerprint ml = Inl LengthMismatch \<longleftrightarrow> 2 \<le> length ml \<and> \<not> sameLength ml"
  proof (cases "ml = []")
    case True
    then show ?thesis by (simp add: generateFingerprint_tokens)
  next
    case False
    from length_cases [OF False] show ?thesis
      using False by (auto simp: generateFingerprint_tokens [OF no])
  qed
next
  assume no: "Other \<notin> set ml"
  assume ok: "ml \<noteq> [] \<and> \<not> (2 \<le> length ml \<and> \<not> sameLength ml)"
  then have ne: "ml \<noteq> []" by simp
  from length_cases [OF ne] show "\<exists>f. generateFingerprint ml = Inr f"
    using ok by (auto simp: generateFingerprint_tokens [OF no])
qed

theorem generateFingerprint_errors_witness:
  "Other \<notin> set [Str (js ''login 17''), Arr [js ''login'']] \<and>
   generateFingerprint [Str (js ''login 17''), Arr [js ''login'']] = Inl LengthMismatch"
proof -
  have "\<not> sameLength [Str (js ''login 17''), Arr [js ''login'']]"
    by (simp add: sameLength_def tokens_login17) (simp add: tokens_def)
  then show ?thesis
    using generateFingerprint_errors [of "[Str (js ''login 17''), Arr [js ''login'']]"]
    by simp
qed

text \<open>
  C4. Given two or more strings and fingerprints whose token sequences all have the same
  length, \<open>generateFingerprint\<close> returns a fingerprint of that length; at a position
  where every input has the same token it has that token, and at every other position it
  has \<^verbatim>\<open>_nonce_\<close>. For two inputs of equal length that differ at exactly one position,
  the result is the token sequence of the first with \<^verbatim>\<open>_nonce_\<close> at that position.
\<close>

theorem generateFingerprint_infer:
  "(Other \<notin> set ml \<longrightarrow> 2 \<le> length ml \<longrightarrow> sameLength ml \<longrightarrow>
      (\<exists>f. generateFingerprint ml = Inr f \<and>
           (\<forall>v\<in>set ml. length f = length (tokens v)) \<and>
           (\<forall>i<length f.
              (\<forall>w. (\<forall>v\<in>set ml. tokens v ! i = w) \<longrightarrow> f ! i = w) \<and>
              (\<not> (\<exists>w. \<forall>v\<in>set ml. tokens v ! i = w) \<longrightarrow> f ! i = nonce)))) \<and>
   (a \<noteq> Other \<longrightarrow> b \<noteq> Other \<longrightarrow> length (tokens a) = length (tokens b) \<longrightarrow>
    k < length (tokens a) \<longrightarrow> tokens a ! k \<noteq> tokens b ! k \<longrightarrow>
    (\<forall>i<length (tokens a). i \<noteq> k \<longrightarrow> tokens a ! i = tokens b ! i) \<longrightarrow>
      generateFingerprint [a, b] = Inr ((tokens a)[k := nonce]))"
proof (intro conjI impI)
  assume no: "Other \<notin> set ml" and two: "2 \<le> length ml" and same: "sameLength ml"
  from two have ne: "ml \<noteq> []" and n1: "length ml \<noteq> 1" by auto
  define f where "f = map (inferWord (map tokens ml)) [0..<length (tokens (hd ml))]"
  have gf: "generateFingerprint ml = Inr f"
    using ne n1 same by (simp add: generateFingerprint_tokens [OF no] f_def)
  have hd: "hd ml \<in> set ml" using ne by simp
  have len: "length f = length (tokens v)" if "v \<in> set ml" for v
  proof -
    from same hd that have "length (tokens (hd ml)) = length (tokens v)"
      unfolding sameLength_def by blast
    then show ?thesis by (simp add: f_def)
  qed
  have nth: "f ! i = (if list_all (\<lambda>v. tokens v ! i = tokens (hd ml) ! i) ml
                      then tokens (hd ml) ! i else nonce)" if "i < length f" for i
    using that by (simp add: f_def inferWord_tokens [OF ne])
  have pos: "(\<forall>w. (\<forall>v\<in>set ml. tokens v ! i = w) \<longrightarrow> f ! i = w) \<and>
             (\<not> (\<exists>w. \<forall>v\<in>set ml. tokens v ! i = w) \<longrightarrow> f ! i = nonce)"
    if i: "i < length f" for i
  proof (intro conjI allI impI)
    fix w assume all: "\<forall>v\<in>set ml. tokens v ! i = w"
    with hd have "tokens (hd ml) ! i = w" by blast
    moreover from all this have "list_all (\<lambda>v. tokens v ! i = tokens (hd ml) ! i) ml"
      by (simp add: list_all_iff)
    ultimately show "f ! i = w" by (simp add: nth [OF i])
  next
    assume none: "\<not> (\<exists>w. \<forall>v\<in>set ml. tokens v ! i = w)"
    have "\<not> list_all (\<lambda>v. tokens v ! i = tokens (hd ml) ! i) ml"
    proof
      assume "list_all (\<lambda>v. tokens v ! i = tokens (hd ml) ! i) ml"
      then have "\<forall>v\<in>set ml. tokens v ! i = tokens (hd ml) ! i" by (simp add: list_all_iff)
      with none show False by blast
    qed
    then show "f ! i = nonce" by (simp add: nth [OF i])
  qed
  show "\<exists>f. generateFingerprint ml = Inr f \<and>
           (\<forall>v\<in>set ml. length f = length (tokens v)) \<and>
           (\<forall>i<length f.
              (\<forall>w. (\<forall>v\<in>set ml. tokens v ! i = w) \<longrightarrow> f ! i = w) \<and>
              (\<not> (\<exists>w. \<forall>v\<in>set ml. tokens v ! i = w) \<longrightarrow> f ! i = nonce))"
    using gf len pos by blast
next
  assume a: "a \<noteq> Other" and b: "b \<noteq> Other"
    and len: "length (tokens a) = length (tokens b)"
    and k: "k < length (tokens a)" and diff: "tokens a ! k \<noteq> tokens b ! k"
    and rest: "\<forall>i<length (tokens a). i \<noteq> k \<longrightarrow> tokens a ! i = tokens b ! i"
  have no: "Other \<notin> set [a, b]" using a b by auto
  have same: "sameLength [a, b]" using len by (simp add: sameLength_def)
  have gf: "generateFingerprint [a, b] =
      Inr (map (inferWord (map tokens [a, b])) [0..<length (tokens a)])"
    using same by (simp add: generateFingerprint_tokens [OF no])
  have "map (inferWord (map tokens [a, b])) [0..<length (tokens a)] = (tokens a)[k := nonce]"
  proof (rule nth_equalityI)
    show "length (map (inferWord (map tokens [a, b])) [0..<length (tokens a)]) =
          length ((tokens a)[k := nonce])" by simp
  next
    fix i assume "i < length (map (inferWord (map tokens [a, b])) [0..<length (tokens a)])"
    then have i: "i < length (tokens a)" by simp
    show "map (inferWord (map tokens [a, b])) [0..<length (tokens a)] ! i =
          (tokens a)[k := nonce] ! i"
    proof (cases "i = k")
      case True
      with i diff show ?thesis by (simp add: inferWord_def)
    next
      case False
      with i rest have "tokens a ! i = tokens b ! i" by blast
      with i False show ?thesis by (simp add: inferWord_def)
    qed
  qed
  with gf show "generateFingerprint [a, b] = Inr ((tokens a)[k := nonce])" by simp
qed

theorem generateFingerprint_infer_witness:
  "generateFingerprint [Str (js ''login 17''), Str (js ''login 42'')] =
     Inr [js ''login'', js '' '', nonce]"
proof -
  have d: "tokens (Str (js ''login 17'')) ! 2 \<noteq> tokens (Str (js ''login 42'')) ! 2"
    unfolding tokens_login17 tokens_login42 by (simp add: js_simps)
  have r: "\<forall>i<length (tokens (Str (js ''login 17''))). i \<noteq> 2 \<longrightarrow>
     tokens (Str (js ''login 17'')) ! i = tokens (Str (js ''login 42'')) ! i"
    by (auto simp: tokens_login17 tokens_login42 nth_Cons' less_Suc_eq numeral_3_eq_3)
  from d r
    generateFingerprint_infer [where a = "Str (js ''login 17'')" and b = "Str (js ''login 42'')"
      and k = 2 and ml = "[]"]
  show ?thesis by (simp add: tokens_login17 tokens_login42)
qed

subsection \<open>Message creation\<close>

lemma generateFingerprint_single: "generateFingerprint [Str m] = Inr (split (replaceAddress m))"
  by (simp add: generateFingerprint_def)

lemma generateFingerprint_pair_mismatch:
  "length f \<noteq> length (split (replaceAddress m)) \<Longrightarrow>
   generateFingerprint [Str m, Arr f] = Inl LengthMismatch"
  by (simp add: generateFingerprint_def)

text \<open>
  C2. For a request whose message is a string, \<open>createMessageInfo\<close> returns a
  MessageInfo that carries the fields of the request. When the domain has a stored
  global fingerprint whose length differs from the number of tokens of the message, the
  attempt on the two inputs fails with \<open>LengthMismatch\<close> and the fingerprint of the
  result is that of the message alone.
\<close>

theorem createMessageInfo_never_fails:
  "message msg = Str m \<longrightarrow>
     (\<exists>info. createMessageInfo now msg globalFingerprints = Inr info \<and>
        address info = address msg \<and> message info = Str m \<and> domain info = domain msg \<and>
        web3Name info = web3Name msg \<and> createdAt info = now \<and>
        (\<forall>f. map_of globalFingerprints (domain msg) = Some f \<and>
              length f \<noteq> length (split (replaceAddress m)) \<longrightarrow>
           generateFingerprint [Str m, Arr f] = Inl LengthMismatch \<and>
           generateFingerprint [Str m] = Inr (fingerprint info) \<and>
           fingerprint info = split (replaceAddress m)))"
proof
  assume m: "message msg = Str m"
  show "\<exists>info. createMessageInfo now msg globalFingerprints = Inr info \<and>
        address info = address msg \<and> message info = Str m \<and> domain info = domain msg \<and>
        web3Name info = web3Name msg \<and> createdAt info = now \<and>
        (\<forall>f. map_of globalFingerprints (domain msg) = Some f \<and>
              length f \<noteq> length (split (replaceAddress m)) \<longrightarrow>
           generateFingerprint [Str m, Arr f] = Inl LengthMismatch \<and>
           generateFingerprint [Str m] = Inr (fingerprint info) \<and>
           fingerprint info = split (replaceAddress m))"
  proof (cases "map_of globalFingerprints (domain msg)")
    case None
    have "generateFingerprint [Str m, Other] = Inl InvalidMessage"
      by (simp add: generateFingerprint_def)
    with None show ?thesis
      by (simp add: createMessageInfo_def getProperty_def m generateFingerprint_single)
  next
    case (Some g)
    then have own: "getProperty globalFingerprints (domain msg) = Own g"
      by (simp add: getProperty_def)
    show ?thesis
    proof (cases "length g = length (split (replaceAddress m))")
      case True
      then have "\<exists>h. generateFingerprint [Str m, Arr g] = Inr h"
        by (simp add: generateFingerprint_def)
      then obtain h where "generateFingerprint [Str m, Arr g] = Inr h" ..
      with Some own True show ?thesis
        by (simp add: createMessageInfo_def m)
    next
      case False
      then have "generateFingerprint [Str m, Arr g] = Inl LengthMismatch"
        by (rule generateFingerprint_pair_mismatch)
      with Some own False show ?thesis
        by (simp add: createMessageInfo_def m generateFingerprint_single)
    qed
  qed
qed

theorem createMessageInfo_never_fails_witness:
  "\<exists>info. createMessageInfo 0
       \<lparr>address = js ''0xabc'', message = Str (js ''login 17''), domain = js ''a.io'',
        web3Name = js ''A''\<rparr>
       [(js ''a.io'', [js ''login''])] = Inr info \<and>
     fingerprint info = [js ''login'', js '' '', js ''17'']"
proof -
  have t: "split (replaceAddress (js ''login 17'')) = [js ''login'', js '' '', js ''17'']"
    using tokens_login17 by (simp add: tokens_def)
  from createMessageInfo_never_fails [where m = "js ''login 17''" and now = 0
      and msg = "\<lparr>address = js ''0xabc'', message = Str (js ''login 17''), domain = js ''a.io'',
      web3Name = js ''A''\<rparr>" and globalFingerprints = "[(js ''a.io'', [js ''login''])]"]
  show ?thesis
    by (auto simp: t)
qed

subsection \<open>Risk assessment\<close>

lemma indexOfFrom_sublist:
  "0 \<le> k \<Longrightarrow> indexOfFrom s t k \<noteq> - 1 \<longleftrightarrow> sublist t s"
proof (induction s arbitrary: k)
  case Nil
  then show ?case by auto
next
  case (Cons c cs)
  from Cons.prems have "0 \<le> k + 1" by simp
  from Cons.IH [OF this] Cons.prems show ?case
    by (auto simp: sublist_Cons_right)
qed

lemma indexOf_sublist: "indexOf s t \<noteq> - 1 \<longleftrightarrow> sublist t s"
  by (simp add: indexOf_def indexOfFrom_sublist)

lemma matchingDomains_filter:
  "matchingDomains site f1 tab =
     map fst (filter (\<lambda>p. fst p \<noteq> site \<and> compareFingerprint f1 (snd p)) tab)"
  by (induction site f1 tab rule: matchingDomains.induct) auto

lemma matchingDomains_empty:
  "matchingDomains site f1 tab = [] \<longleftrightarrow> \<not> otherDomainMatches site f1 tab"
  by (auto simp: matchingDomains_filter otherDomainMatches_def filter_empty_conv)

lemma matchingDomains_hd_find:
  "matchingDomains site f1 tab \<noteq> [] \<Longrightarrow>
   \<exists>f2. find (\<lambda>p. fst p \<noteq> site \<and> compareFingerprint f1 (snd p)) tab =
          Some (hd (matchingDomains site f1 tab), f2)"
  by (induction site f1 tab rule: matchingDomains.induct) auto

lemma find_map_of:
  "find P tab = Some (d, f2) \<Longrightarrow> distinct (map fst tab) \<Longrightarrow> map_of tab d = Some f2"
  by (auto simp: find_Some_iff intro: map_of_is_SomeI nth_mem)

lemma matchingDomains_hd_lookup:
  "matchingDomains site f1 tab \<noteq> [] \<Longrightarrow> map_of tab (hd (matchingDomains site f1 tab)) \<noteq> None"
proof -
  assume ne: "matchingDomains site f1 tab \<noteq> []"
  then have "hd (matchingDomains site f1 tab) \<in> set (matchingDomains site f1 tab)" by simp
  then have "hd (matchingDomains site f1 tab) \<in> fst ` set tab"
    by (auto simp: matchingDomains_filter)
  then show ?thesis by (simp add: map_of_eq_None_iff)
qed


lemma getProperty_Own: "map_of obj key = Some v \<Longrightarrow> getProperty obj key = Own v"
  by (simp add: getProperty_def)

lemma getProperty_Undefined:
  "map_of obj key = None \<Longrightarrow> key \<notin> set objectPrototypeKeys \<Longrightarrow>
   getProperty obj key = Undefined"
  by (simp add: getProperty_def)

lemma getProperty_Inherited_iff:
  "getProperty obj key = Inherited \<longleftrightarrow>
     map_of obj key = None \<and> key \<in> set objectPrototypeKeys"
  by (simp add: getProperty_def split: option.splits)

lemma getProperty_Undefined_iff:
  "getProperty obj key = Undefined \<longleftrightarrow>
     map_of obj key = None \<and> key \<notin> set objectPrototypeKeys"
  by (simp add: getProperty_def split: option.splits)

text \<open>With a signer that is only the name of an inherited property, the call throws.\<close>

lemma checkMessageBeforeSign_Inherited:
  assumes "message info = Str m" and "getProperty sm (address info) = Inherited"
  shows "checkMessageBeforeSign lower info sm gfs = Inl TypeError"
  using assms by (simp add: checkMessageBeforeSign_def Let_def)

text \<open>With every other signer it returns: the phishing finding, then the replay finding.\<close>

lemma checkMessageBeforeSign_Str:
  assumes m: "message info = Str m" and a: "getProperty sm (address info) \<noteq> Inherited"
  shows "checkMessageBeforeSign lower info sm gfs =
     Inr ((if victimsOf info sm \<noteq> [] then [phishingDanger (domain info) (victimsOf info sm)]
           else if matchingDomains (domain info) (fingerprint info) gfs \<noteq> []
           then [phishingWarning (matchingDomains (domain info) (fingerprint info) gfs)]
           else if \<not> sublist (lower (domain info)) (lower m) then [phishingInfo]
           else []) @
          (if (if seesLocalFingerprint info sm then nonce \<in> set (fingerprint info)
               else if matchingDomains (domain info) (fingerprint info) gfs \<noteq> []
               then nonce \<in> set (the (map_of gfs
                      (hd (matchingDomains (domain info) (fingerprint info) gfs))))
               else False)
           then [] else [replayInfo]))"
proof -
  define similar where "similar = matchingDomains (domain info) (fingerprint info) gfs"
  have look: "similar \<noteq> [] \<Longrightarrow> \<exists>sf. map_of gfs (hd similar) = Some sf"
    unfolding similar_def using matchingDomains_hd_lookup by fastforce
  have own: "similar \<noteq> [] \<Longrightarrow>
      getProperty gfs (hd similar) = Own (the (map_of gfs (hd similar)))"
    using look by (auto simp: getProperty_def)
  show ?thesis
  proof (cases "map_of sm (address info)")
    case None
    with a have u: "getProperty sm (address info) = Undefined"
      by (simp add: getProperty_def split: if_splits)
    show ?thesis
    proof (cases "similar = []")
      case True
      with None u show ?thesis
        unfolding similar_def
        by (simp add: checkMessageBeforeSign_def m Let_def pop_def indexOf_sublist
            victimsOf_def seesLocalFingerprint_def)
    next
      case False
      with None u own [OF False] show ?thesis
        unfolding similar_def
        by (simp add: checkMessageBeforeSign_def m Let_def pop_def indexOf_sublist
            victimsOf_def seesLocalFingerprint_def list_ex_iff)
    qed
  next
    case (Some entry)
    then have o: "getProperty sm (address info) = Own entry" by (rule getProperty_Own)
    show ?thesis
    proof (cases "similar = []")
      case True
      with Some o show ?thesis
        unfolding similar_def
        by (cases "getProperty (localFingerprints entry) (domain info)")
           (simp_all add: checkMessageBeforeSign_def m Let_def pop_def indexOf_sublist
              victimsOf_def seesLocalFingerprint_def list_ex_iff)
    next
      case False
      with Some o own [OF False] show ?thesis
        unfolding similar_def
        by (cases "getProperty (localFingerprints entry) (domain info)")
           (simp_all add: checkMessageBeforeSign_def m Let_def pop_def indexOf_sublist
              victimsOf_def seesLocalFingerprint_def list_ex_iff)
    qed
  qed
qed

lemma victimsOf_empty: "victimsOf info sm = [] \<longleftrightarrow> \<not> knownVictim info sm"
  by (cases "map_of sm (address info)")
     (simp_all add: victimsOf_def knownVictim_def matchingDomains_empty)

lemma titles [simp]:
  "title phishingInfo = js ''Phishing Attack''"
  "title (phishingWarning ds) = js ''Phishing Attack''"
  "title (phishingDanger d ds) = js ''Phishing Attack''"
  "title replayInfo = js ''Replay Attack''"
  by (simp_all add: phishingInfo_def phishingWarning_def phishingDanger_def replayInfo_def)

lemma severities [simp]:
  "severity phishingInfo = js ''info''"
  "severity (phishingWarning ds) = js ''warning''"
  "severity (phishingDanger d ds) = js ''danger''"
  "severity replayInfo = js ''info''"
  by (simp_all add: phishingInfo_def phishingWarning_def phishingDanger_def replayInfo_def)

lemma replay_not_phishing [simp]: "js ''Replay Attack'' \<noteq> js ''Phishing Attack''"
  by (simp add: js_simps)

lemma severities_distinct [simp]:
  "js ''warning'' \<noteq> js ''info''" "js ''danger'' \<noteq> js ''info''"
  by (simp_all add: js_simps)

lemma indexOf_empty: "indexOf s [] = 0"
  by (cases s) (simp_all add: indexOf_def)

lemma find_None_matching:
  "find (\<lambda>p. fst p \<noteq> site \<and> compareFingerprint f1 (snd p)) tab = None \<longleftrightarrow>
   matchingDomains site f1 tab = []"
  by (induction site f1 tab rule: matchingDomains.induct) auto

lemma nonce_inherited:
  assumes "distinct (map fst tab)"
  shows "(if matchingDomains site f1 tab \<noteq> []
          then nonce \<in> set (the (map_of tab (hd (matchingDomains site f1 tab))))
          else False) =
         (case find (\<lambda>p. fst p \<noteq> site \<and> compareFingerprint f1 (snd p)) tab of
            Some p \<Rightarrow> nonce \<in> set (snd p)
          | None \<Rightarrow> False)"
proof (cases "matchingDomains site f1 tab = []")
  case True
  then have "find (\<lambda>p. fst p \<noteq> site \<and> compareFingerprint f1 (snd p)) tab = None"
    by (simp only: find_None_matching)
  with True show ?thesis by simp
next
  case False
  from matchingDomains_hd_find [OF False] obtain f2 where
    f: "find (\<lambda>p. fst p \<noteq> site \<and> compareFingerprint f1 (snd p)) tab =
          Some (hd (matchingDomains site f1 tab), f2)" ..
  from find_map_of [OF f assms] f False show ?thesis by simp
qed

text \<open>
  C1. For a MessageInfo whose message is a string, \<open>checkMessageBeforeSign\<close> returns a
  list unless the signer is only the name of an inherited property (where it throws),
  and a list it returns has at most one finding titled \<^verbatim>\<open>Phishing Attack\<close>. It is
  the danger finding if the signer has local history in which some other domain's
  fingerprint matches; otherwise the warning finding if some other domain's global
  fingerprint matches; otherwise the info finding if the lower-cased domain does not
  occur in the lower-cased message; otherwise there is none. No phishing finding of a
  lower severity remains in the list.
\<close>

theorem phishing_supersede:
  "message info = Str m \<longrightarrow>
   (getProperty sm (address info) \<noteq> Inherited \<longrightarrow>
      (\<exists>rs. checkMessageBeforeSign lower info sm gfs = Inr rs)) \<and>
   (\<forall>rs. checkMessageBeforeSign lower info sm gfs = Inr rs \<longrightarrow>
      length (filter (\<lambda>r. title r = js ''Phishing Attack'') rs) \<le> 1 \<and>
      filter (\<lambda>r. title r = js ''Phishing Attack'') rs =
        (if knownVictim info sm then [phishingDanger (domain info) (victimsOf info sm)]
         else if otherDomainMatches (domain info) (fingerprint info) gfs
         then [phishingWarning (matchingDomains (domain info) (fingerprint info) gfs)]
         else if \<not> sublist (lower (domain info)) (lower m) then [phishingInfo]
         else []) \<and>
      map severity (filter (\<lambda>r. title r = js ''Phishing Attack'') rs) =
        (if knownVictim info sm then [js ''danger'']
         else if otherDomainMatches (domain info) (fingerprint info) gfs then [js ''warning'']
         else if \<not> sublist (lower (domain info)) (lower m) then [js ''info'']
         else []))"
proof
  assume m: "message info = Str m"
  show "(getProperty sm (address info) \<noteq> Inherited \<longrightarrow>
      (\<exists>rs. checkMessageBeforeSign lower info sm gfs = Inr rs)) \<and>
   (\<forall>rs. checkMessageBeforeSign lower info sm gfs = Inr rs \<longrightarrow>
      length (filter (\<lambda>r. title r = js ''Phishing Attack'') rs) \<le> 1 \<and>
      filter (\<lambda>r. title r = js ''Phishing Attack'') rs =
        (if knownVictim info sm then [phishingDanger (domain info) (victimsOf info sm)]
         else if otherDomainMatches (domain info) (fingerprint info) gfs
         then [phishingWarning (matchingDomains (domain info) (fingerprint info) gfs)]
         else if \<not> sublist (lower (domain info)) (lower m) then [phishingInfo]
         else []) \<and>
      map severity (filter (\<lambda>r. title r = js ''Phishing Attack'') rs) =
        (if knownVictim info sm then [js ''danger'']
         else if otherDomainMatches (domain info) (fingerprint info) gfs then [js ''warning'']
         else if \<not> sublist (lower (domain info)) (lower m) then [js ''info'']
         else []))"
  proof (cases "getProperty sm (address info) = Inherited")
    case True
    then show ?thesis by (simp add: checkMessageBeforeSign_Inherited [OF m])
  next
    case False
    show ?thesis
      by (simp add: checkMessageBeforeSign_Str [OF m False] victimsOf_empty
          matchingDomains_empty)
  qed
qed

theorem phishing_supersede_witness:
  "\<exists>rs. checkMessageBeforeSign asciiLowerCase
       \<lparr>address = js ''0xABC'', message = Str (js ''login now''), domain = js ''evil.com'',
        web3Name = js ''Evil'', createdAt = 2, fingerprint = [js ''login'', js '' '', js ''now'']\<rparr>
       [(js ''0xABC'',
         \<lparr>localFingerprints = [(js ''bank.com'', [js ''login'', js '' '', nonce])],
          localMessages = []\<rparr>)]
       [(js ''bank.com'', [js ''login'', js '' '', nonce])] = Inr rs \<and>
     map severity (filter (\<lambda>r. title r = js ''Phishing Attack'') rs) = [js ''danger'']"
proof -
  have ne: "js ''bank.com'' \<noteq> js ''evil.com''" by (simp add: js_simps)
  have kv: "knownVictim
       \<lparr>address = js ''0xABC'', message = Str (js ''login now''), domain = js ''evil.com'',
        web3Name = js ''Evil'', createdAt = 2, fingerprint = [js ''login'', js '' '', js ''now'']\<rparr>
       [(js ''0xABC'',
         \<lparr>localFingerprints = [(js ''bank.com'', [js ''login'', js '' '', nonce])],
          localMessages = []\<rparr>)]"
    by (simp add: knownVictim_def otherDomainMatches_def compareFingerprint_def ne)
  have own: "getProperty
       [(js ''0xABC'',
         \<lparr>localFingerprints = [(js ''bank.com'', [js ''login'', js '' '', nonce])],
          localMessages = []\<rparr>)] (js ''0xABC'') \<noteq> Inherited"
    by (simp add: getProperty_def)
  from phishing_supersede [where m = "js ''login now''" and lower = asciiLowerCase
      and info = "\<lparr>address = js ''0xABC'', message = Str (js ''login now''),
        domain = js ''evil.com'', web3Name = js ''Evil'', createdAt = 2,
        fingerprint = [js ''login'', js '' '', js ''now'']\<rparr>"
      and sm = "[(js ''0xABC'',
         \<lparr>localFingerprints = [(js ''bank.com'', [js ''login'', js '' '', nonce])],
          localMessages = []\<rparr>)]"
      and gfs = "[(js ''bank.com'', [js ''login'', js '' '', nonce])]"]
  show ?thesis
    using kv own by auto
qed

text \<open>
  The rule of the replay check, for a domain that is not the name of an inherited
  property and a table of global fingerprints with one entry per domain: the replay
  finding is appended exactly when \<^verbatim>\<open>nonceInMsg\<close> is false, where \<^verbatim>\<open>nonceInMsg\<close>
  says, with a local fingerprint of the signer for this domain, whether the fingerprint
  of the message contains \<^verbatim>\<open>_nonce_\<close>; otherwise whether the global fingerprint of
  the first other domain that matches does; and is false when no other domain matches.
\<close>

lemma replay_finding_ordinary_domain:
  assumes d: "distinct (map fst gfs)" and m: "message info = Str m"
    and a: "getProperty sm (address info) \<noteq> Inherited"
    and k: "domain info \<notin> set objectPrototypeKeys"
  shows "\<exists>before. checkMessageBeforeSign lower info sm gfs =
        Inr (before @
          (if (if hasLocalFingerprint info sm then nonce \<in> set (fingerprint info)
               else case find (\<lambda>p. fst p \<noteq> domain info \<and>
                                  compareFingerprint (fingerprint info) (snd p)) gfs of
                      Some p \<Rightarrow> nonce \<in> set (snd p)
                    | None \<Rightarrow> False)
           then [] else [replayInfo])) \<and>
      (\<forall>r\<in>set before. title r \<noteq> js ''Replay Attack'')"
proof -
  have eq: "seesLocalFingerprint info sm = hasLocalFingerprint info sm"
    using k by (simp add: seesLocalFingerprint_def hasLocalFingerprint_def
        getProperty_Undefined_iff split: option.splits)
  show ?thesis
    unfolding checkMessageBeforeSign_Str [OF m a] nonce_inherited [OF d] eq
    by (intro exI conjI, rule refl) (simp add: replay_not_phishing [symmetric])
qed

text \<open>
  C3. At the domain \<^verbatim>\<open>constructor\<close> the replay check does not follow that rule. The
  signer has local history, with no fingerprint stored for \<^verbatim>\<open>constructor\<close>; the
  global fingerprint of \<^verbatim>\<open>a.io\<close> matches and contains \<^verbatim>\<open>_nonce_\<close>. The
  MessageInfo is the one \<open>createMessageInfo\<close> returns. The test
  \<^verbatim>\<open>localFingerprints[domain] != undefined\<close> finds the inherited property, so
  \<^verbatim>\<open>nonceInMsg\<close> is read from the fingerprint of the message, which has no
  \<^verbatim>\<open>_nonce_\<close>, and the replay finding is appended after the warning.
\<close>

theorem replay_inherited_domain:
  "createMessageInfo now
     \<lparr>address = js ''0xABC'', message = Str (js ''login now''), domain = js ''constructor'',
      web3Name = w\<rparr>
     [(js ''a.io'', [js ''login'', js '' '', nonce])] =
   Inr \<lparr>address = js ''0xABC'', message = Str (js ''login now''), domain = js ''constructor'',
        web3Name = w, createdAt = now, fingerprint = [js ''login'', js '' '', js ''now'']\<rparr> \<and>
   checkMessageBeforeSign lower
     \<lparr>address = js ''0xABC'', message = Str (js ''login now''), domain = js ''constructor'',
      web3Name = w, createdAt = now, fingerprint = [js ''login'', js '' '', js ''now'']\<rparr>
     [(js ''0xABC'', \<lparr>localFingerprints = [(js ''b.io'', [js ''hello''])], localMessages = []\<rparr>)]
     [(js ''a.io'', [js ''login'', js '' '', nonce])] =
   Inr [phishingWarning [js ''a.io''], replayInfo] \<and>
   \<not> hasLocalFingerprint
     \<lparr>address = js ''0xABC'', message = Str (js ''login now''), domain = js ''constructor'',
      web3Name = w, createdAt = now, fingerprint = [js ''login'', js '' '', js ''now'']\<rparr>
     [(js ''0xABC'', \<lparr>localFingerprints = [(js ''b.io'', [js ''hello''])], localMessages = []\<rparr>)] \<and>
   find (\<lambda>p. fst p \<noteq> js ''constructor'' \<and>
               compareFingerprint [js ''login'', js '' '', js ''now''] (snd p))
     [(js ''a.io'', [js ''login'', js '' '', nonce])] =
   Some (js ''a.io'', [js ''login'', js '' '', nonce]) \<and>
   nonce \<in> set [js ''login'', js '' '', nonce]"
proof -
  define info :: messageInfo where "info =
     \<lparr>address = js ''0xABC'', message = Str (js ''login now''), domain = js ''constructor'',
      web3Name = w, createdAt = now, fingerprint = [js ''login'', js '' '', js ''now'']\<rparr>"
  define sm :: signedMessages where "sm =
     [(js ''0xABC'', \<lparr>localFingerprints = [(js ''b.io'', [js ''hello''])], localMessages = []\<rparr>)]"
  define gfs :: fingerprintTable where "gfs = [(js ''a.io'', [js ''login'', js '' '', nonce])]"
  have key: "js ''constructor'' \<in> set objectPrototypeKeys"
    by (simp add: objectPrototypeKeys_def)
  have ne: "js ''a.io'' \<noteq> js ''constructor''" "js ''b.io'' \<noteq> js ''constructor''"
    "js ''constructor'' \<noteq> js ''a.io''" "js ''constructor'' \<noteq> js ''b.io''"
    by (simp_all add: js_simps)
  have cf: "compareFingerprint [js ''login'', js '' '', js ''now''] [js ''login'', js '' '', nonce]"
    by (simp add: compareFingerprint_def nonce_def js_simps)
  have nn: "nonce \<notin> set (fingerprint info)"
    by (simp add: info_def nonce_def js_simps)
  have t: "split (replaceAddress (js ''login now'')) = [js ''login'', js '' '', js ''now'']"
    by code_simp
  have inh: "getProperty gfs (js ''constructor'') = Inherited"
    by (simp add: getProperty_def gfs_def ne key)
  have "generateFingerprint [Str (js ''login now''), Other] = Inl InvalidMessage"
    by (simp add: generateFingerprint_def)
  with inh have c: "createMessageInfo now
     \<lparr>address = js ''0xABC'', message = Str (js ''login now''), domain = js ''constructor'',
      web3Name = w\<rparr> gfs = Inr info"
    by (simp add: createMessageInfo_def generateFingerprint_single t info_def)
  have m: "message info = Str (js ''login now'')" by (simp add: info_def)
  have own: "getProperty sm (address info) \<noteq> Inherited"
    by (simp add: getProperty_def sm_def info_def)
  have sees: "seesLocalFingerprint info sm"
    by (simp add: seesLocalFingerprint_def sm_def info_def getProperty_def ne key)
  have hl: "\<not> hasLocalFingerprint info sm"
    by (simp add: hasLocalFingerprint_def sm_def info_def ne)
  have md: "matchingDomains (domain info) (fingerprint info) gfs = [js ''a.io'']"
    by (simp add: info_def gfs_def cf ne)
  have v: "victimsOf info sm = []"
    by (simp add: victimsOf_def sm_def info_def compareFingerprint_def ne)
  have r: "checkMessageBeforeSign lower info sm gfs =
      Inr [phishingWarning [js ''a.io''], replayInfo]"
    unfolding checkMessageBeforeSign_Str [OF m own] md v using sees nn by simp
  have fnd: "find (\<lambda>p. fst p \<noteq> js ''constructor'' \<and>
               compareFingerprint [js ''login'', js '' '', js ''now''] (snd p)) gfs =
      Some (js ''a.io'', [js ''login'', js '' '', nonce])"
    by (simp add: gfs_def cf ne)
  from c r hl fnd show ?thesis
    unfolding info_def sm_def gfs_def by simp
qed

text \<open>
  C10. With the empty domain (and \<^verbatim>\<open>toLowerCase\<close> keeping the empty string empty) the
  domain is found in the message at index 0. The call returns a list unless the signer
  is only the name of an inherited property, and a list it returns holds no phishing
  finding of severity \<^verbatim>\<open>info\<close>; a warning and a danger phishing finding are both
  possible with the empty domain.
\<close>

theorem empty_domain_no_info:
  "(lower [] = [] \<longrightarrow> domain info = [] \<longrightarrow> message info = Str m \<longrightarrow>
      indexOf (lower m) (lower (domain info)) = 0 \<and>
      (getProperty sm (address info) \<noteq> Inherited \<longrightarrow>
         (\<exists>rs. checkMessageBeforeSign lower info sm gfs = Inr rs)) \<and>
      (\<forall>rs. checkMessageBeforeSign lower info sm gfs = Inr rs \<longrightarrow>
         \<not> (\<exists>r\<in>set rs. title r = js ''Phishing Attack'' \<and> severity r = js ''info''))) \<and>
   (\<exists>info sm gfs rs. domain info = [] \<and> checkMessageBeforeSign lower info sm gfs = Inr rs \<and>
      (\<exists>r\<in>set rs. title r = js ''Phishing Attack'' \<and> severity r = js ''warning'')) \<and>
   (\<exists>info sm gfs rs. domain info = [] \<and> checkMessageBeforeSign lower info sm gfs = Inr rs \<and>
      (\<exists>r\<in>set rs. title r = js ''Phishing Attack'' \<and> severity r = js ''danger''))"
proof (intro conjI impI)
  assume l: "lower [] = []" and d: "domain info = []" and m: "message info = Str m"
  show "indexOf (lower m) (lower (domain info)) = 0"
    by (simp add: d l indexOf_empty)
  show "\<exists>rs. checkMessageBeforeSign lower info sm gfs = Inr rs"
    if "getProperty sm (address info) \<noteq> Inherited"
    by (simp add: checkMessageBeforeSign_Str [OF m that])
  show "\<forall>rs. checkMessageBeforeSign lower info sm gfs = Inr rs \<longrightarrow>
         \<not> (\<exists>r\<in>set rs. title r = js ''Phishing Attack'' \<and> severity r = js ''info'')"
  proof (cases "getProperty sm (address info) = Inherited")
    case True
    then show ?thesis by (simp add: checkMessageBeforeSign_Inherited [OF m])
  next
    case False
    show ?thesis by (simp add: checkMessageBeforeSign_Str [OF m False] d l)
  qed
next
  define info :: messageInfo where "info =
     \<lparr>address = js ''0xABC'', message = Str (js ''login''), domain = [],
      web3Name = [], createdAt = 0, fingerprint = [js ''login'']\<rparr>"
  define gfs :: fingerprintTable where "gfs = [(js ''a.io'', [js ''login''])]"
  have m: "message info = Str (js ''login'')" by (simp add: info_def)
  have ne: "js ''a.io'' \<noteq> []" by (simp add: js_simps)
  have a: "getProperty [] (address info) \<noteq> Inherited"
    by (simp add: getProperty_def info_def objectPrototypeKeys_def js_simps)
  have md: "matchingDomains (domain info) (fingerprint info) gfs = [js ''a.io'']"
    by (simp add: info_def gfs_def compareFingerprint_def ne)
  have v: "victimsOf info [] = []" by (simp add: victimsOf_def)
  have "domain info = [] \<and>
      (\<exists>rs. checkMessageBeforeSign lower info [] gfs = Inr rs \<and>
      (\<exists>r\<in>set rs. title r = js ''Phishing Attack'' \<and> severity r = js ''warning''))"
    unfolding checkMessageBeforeSign_Str [OF m a] md v by (simp add: info_def)
  then show "\<exists>info sm gfs rs. domain info = [] \<and>
      checkMessageBeforeSign lower info sm gfs = Inr rs \<and>
      (\<exists>r\<in>set rs. title r = js ''Phishing Attack'' \<and> severity r = js ''warning'')"
    by blast
next
  define info :: messageInfo where "info =
     \<lparr>address = js ''0xABC'', message = Str (js ''login''), domain = [],
      web3Name = [], createdAt = 0, fingerprint = [js ''login'']\<rparr>"
  define sm :: signedMessages where "sm =
     [(js ''0xABC'', \<lparr>localFingerprints = [(js ''a.io'', [js ''login''])], localMessages = []\<rparr>)]"
  have m: "message info = Str (js ''login'')" by (simp add: info_def)
  have ne: "js ''a.io'' \<noteq> []" by (simp add: js_simps)
  have a: "getProperty sm (address info) \<noteq> Inherited"
    by (simp add: getProperty_def info_def sm_def)
  have v: "victimsOf info sm = [js ''a.io'']"
    by (simp add: victimsOf_def info_def sm_def compareFingerprint_def ne)
  have "domain info = [] \<and>
      (\<exists>rs. checkMessageBeforeSign lower info sm [] = Inr rs \<and>
      (\<exists>r\<in>set rs. title r = js ''Phishing Attack'' \<and> severity r = js ''danger''))"
    unfolding checkMessageBeforeSign_Str [OF m a] v by (simp add: info_def)
  then show "\<exists>info sm gfs rs. domain info = [] \<and>
      checkMessageBeforeSign lower info sm gfs = Inr rs \<and>
      (\<exists>r\<in>set rs. title r = js ''Phishing Attack'' \<and> severity r = js ''danger'')"
    by blast
qed

theorem empty_domain_no_info_witness:
  "asciiLowerCase [] = [] \<and>
   (\<exists>rs. checkMessageBeforeSign asciiLowerCase
       \<lparr>address = js ''0xABC'', message = Str (js ''login now''), domain = [],
        web3Name = js ''B'', createdAt = 2, fingerprint = [js ''login'', js '' '', js ''now'']\<rparr>
       [] [] = Inr rs \<and> phishingInfo \<notin> set rs)"
proof -
  have l: "asciiLowerCase [] = []" by (simp add: asciiLowerCase_def)
  have a: "getProperty ([] :: signedMessages) (js ''0xABC'') \<noteq> Inherited"
    by (simp add: getProperty_def objectPrototypeKeys_def js_simps)
  from l a empty_domain_no_info [where lower = asciiLowerCase and m = "js ''login now''"
      and info = "\<lparr>address = js ''0xABC'', message = Str (js ''login now''), domain = [],
        web3Name = js ''B'', createdAt = 2, fingerprint = [js ''login'', js '' '', js ''now'']\<rparr>"
      and sm = "[]" and gfs = "[]"]
  obtain rs where
    eq: "checkMessageBeforeSign asciiLowerCase
       \<lparr>address = js ''0xABC'', message = Str (js ''login now''), domain = [],
        web3Name = js ''B'', createdAt = 2, fingerprint = [js ''login'', js '' '', js ''now'']\<rparr>
       [] [] = Inr rs"
    by auto
  from l eq empty_domain_no_info [where lower = asciiLowerCase and m = "js ''login now''"
      and info = "\<lparr>address = js ''0xABC'', message = Str (js ''login now''), domain = [],
        web3Name = js ''B'', createdAt = 2, fingerprint = [js ''login'', js '' '', js ''now'']\<rparr>"
      and sm = "[]" and gfs = "[]"]
  have no: "\<not> (\<exists>r\<in>set rs. title r = js ''Phishing Attack'' \<and> severity r = js ''info'')"
    by auto
  from no have "phishingInfo \<notin> set rs" using titles(1) severities(1) by blast
  with eq l show ?thesis by blast
qed

subsection \<open>A sign-in message that names its domain\<close>

lemma tokens_example:
  "split (replaceAddress (js ''Sign in to example.com with nonce abc123'')) =
     [js ''Sign'', js '' '', js ''in'', js '' '', js ''to'', js '' '', js ''example.com'',
      js '' '', js ''with'', js '' '', js ''nonce'', js '' '', js ''abc123'']"
  by code_simp

lemma domain_in_example:
  "sublist (js ''example.com'') (js ''sign in to example.com with nonce abc123'')"
proof -
  have "indexOf (js ''sign in to example.com with nonce abc123'') (js ''example.com'') = 11"
    by code_simp
  then have "indexOf (js ''sign in to example.com with nonce abc123'') (js ''example.com'') \<noteq> - 1"
    by simp
  then show ?thesis by (simp only: indexOf_sublist)
qed

lemma asciiLowerCase_example:
  "asciiLowerCase (js ''Sign in to example.com with nonce abc123'') =
     js ''sign in to example.com with nonce abc123''"
  "asciiLowerCase (js ''example.com'') = js ''example.com''"
  by code_simp+

lemma example_not_inherited: "js ''example.com'' \<notin> set objectPrototypeKeys"
  by (simp add: objectPrototypeKeys_def js_simps)

text \<open>
  C9. For the message \<^verbatim>\<open>Sign in to example.com with nonce abc123\<close> and the domain
  \<^verbatim>\<open>example.com\<close>, with no signing history and no global fingerprints (with
  \<^verbatim>\<open>toLowerCase\<close> lower-casing the two ASCII strings, and a signer address that is
  not the name of an inherited property), \<open>createMessageInfo\<close> returns the literal
  tokens as the fingerprint and \<open>checkMessageBeforeSign\<close> returns exactly one
  finding: the replay finding, of severity \<^verbatim>\<open>info\<close>, which is not a phishing
  finding.
\<close>

theorem example_scenario:
  "lower (js ''Sign in to example.com with nonce abc123'') =
     js ''sign in to example.com with nonce abc123'' \<longrightarrow>
   lower (js ''example.com'') = js ''example.com'' \<longrightarrow>
   a \<notin> set objectPrototypeKeys \<longrightarrow>
   (\<exists>info. createMessageInfo now
        \<lparr>address = a, message = Str (js ''Sign in to example.com with nonce abc123''),
         domain = js ''example.com'', web3Name = w\<rparr> [] = Inr info \<and>
      fingerprint info =
        [js ''Sign'', js '' '', js ''in'', js '' '', js ''to'', js '' '', js ''example.com'',
         js '' '', js ''with'', js '' '', js ''nonce'', js '' '', js ''abc123''] \<and>
      checkMessageBeforeSign lower info [] [] = Inr [replayInfo]) \<and>
   severity replayInfo = js ''info'' \<and> title replayInfo = js ''Replay Attack'' \<and>
   title replayInfo \<noteq> js ''Phishing Attack''"
proof (intro impI conjI)
  assume l1: "lower (js ''Sign in to example.com with nonce abc123'') =
     js ''sign in to example.com with nonce abc123''"
    and l2: "lower (js ''example.com'') = js ''example.com''"
    and a: "a \<notin> set objectPrototypeKeys"
  define info :: messageInfo where "info =
     \<lparr>address = a, message = Str (js ''Sign in to example.com with nonce abc123''),
      domain = js ''example.com'', web3Name = w, createdAt = now,
      fingerprint = split (replaceAddress (js ''Sign in to example.com with nonce abc123''))\<rparr>"
  have c: "createMessageInfo now
        \<lparr>address = a, message = Str (js ''Sign in to example.com with nonce abc123''),
         domain = js ''example.com'', web3Name = w\<rparr> [] = Inr info"
    by (simp add: createMessageInfo_def getProperty_def example_not_inherited
        generateFingerprint_single info_def)
  have m: "message info = Str (js ''Sign in to example.com with nonce abc123'')"
    by (simp add: info_def)
  have d: "domain info = js ''example.com''" by (simp add: info_def)
  have f: "fingerprint info =
        [js ''Sign'', js '' '', js ''in'', js '' '', js ''to'', js '' '', js ''example.com'',
         js '' '', js ''with'', js '' '', js ''nonce'', js '' '', js ''abc123'']"
    by (simp add: info_def tokens_example)
  have u: "getProperty ([] :: signedMessages) (address info) \<noteq> Inherited"
    using a by (simp add: getProperty_def info_def)
  have r: "checkMessageBeforeSign lower info [] [] = Inr [replayInfo]"
    unfolding checkMessageBeforeSign_Str [OF m u] d l1 l2
    by (simp add: victimsOf_def seesLocalFingerprint_def domain_in_example)
  from c f r show "\<exists>info. createMessageInfo now
        \<lparr>address = a, message = Str (js ''Sign in to example.com with nonce abc123''),
         domain = js ''example.com'', web3Name = w\<rparr> [] = Inr info \<and>
      fingerprint info =
        [js ''Sign'', js '' '', js ''in'', js '' '', js ''to'', js '' '', js ''example.com'',
         js '' '', js ''with'', js '' '', js ''nonce'', js '' '', js ''abc123''] \<and>
      checkMessageBeforeSign lower info [] [] = Inr [replayInfo]"
    by blast
qed simp_all

theorem example_scenario_witness:
  "\<exists>info. createMessageInfo 0
        \<lparr>address = js ''0xABC'', message = Str (js ''Sign in to example.com with nonce abc123''),
         domain = js ''example.com'', web3Name = js ''Example''\<rparr> [] = Inr info \<and>
      checkMessageBeforeSign asciiLowerCase info [] [] = Inr [replayInfo]"
proof -
  have a: "js ''0xABC'' \<notin> set objectPrototypeKeys"
    by (simp add: objectPrototypeKeys_def js_simps)
  from a asciiLowerCase_example
    example_scenario [where lower = asciiLowerCase and now = 0 and a = "js ''0xABC''"
      and w = "js ''Example''"]
  show ?thesis by blast
qed

end
